theory Spec2Isabelle
  imports Complex_Main "HOL-Library.DAList"
begin

section \<open>Python values used by the streamer\<close>

text \<open>
  The streamer of \<^verbatim>\<open>websocketapi251110.py\<close> is embedded function by function.
  An exception raised by the Python code is a value of type \<open>error\<close>, and a function that
  can raise returns \<open>error + 'a\<close> with \<open>Inl\<close> for the exception. Python floats are
  modelled by the reals: infinities, NaN and rounding are not represented, and every
  comparison the code makes (\<open>q == 0\<close>, truthiness of a float, sorting by price) is the
  comparison of the values. Strings are ASCII character lists.
\<close>

datatype error =
    KeyError
  | IndexError
  | ValueError
  | TypeError
  | ZeroDivisionError
  | AttributeError
  | TransportError

text \<open>Sequencing of computations that can raise: the first exception is the result.\<close>

definition andthen :: "error + 'a \<Rightarrow> ('a \<Rightarrow> error + 'b) \<Rightarrow> error + 'b" where
  "andthen m f = (case m of Inl e \<Rightarrow> Inl e | Inr x \<Rightarrow> f x)"

definition upper_char :: "char \<Rightarrow> char" where
  "upper_char c =
     (case map_of (zip ''abcdefghijklmnopqrstuvwxyz'' ''ABCDEFGHIJKLMNOPQRSTUVWXYZ'') c of
        Some u \<Rightarrow> u
      | None \<Rightarrow> c)"

text \<open>\<^verbatim>\<open>s.upper()\<close> on an ASCII string.\<close>

definition str_upper :: "string \<Rightarrow> string" where
  "str_upper s = map upper_char s"

text \<open>\<^verbatim>\<open>s.split(sep)\<close> for a one-character separator: the result is never empty.\<close>

fun str_split :: "char \<Rightarrow> string \<Rightarrow> string list" where
  "str_split sep [] = [[]]"
| "str_split sep (c # cs) =
     (if c = sep then [] # str_split sep cs
      else (case str_split sep cs of
              [] \<Rightarrow> [[c]]
            | p # ps \<Rightarrow> (c # p) # ps))"

text \<open>\<^verbatim>\<open>s.endswith(suf)\<close>.\<close>

definition str_endswith :: "string \<Rightarrow> string \<Rightarrow> bool" where
  "str_endswith s suf = (length suf \<le> length s \<and> drop (length s - length suf) s = suf)"

section \<open>Wire values\<close>

text \<open>
  A value produced by \<^verbatim>\<open>json.loads\<close>. An object is the list of its members; a key is
  looked up from the front.
\<close>

datatype json =
    JNull
  | JBool bool
  | JNum real
  | JStr string
  | JArr "json list"
  | JObj "(string \<times> json) list"

text \<open>
  The reading of numeric strings by \<^verbatim>\<open>float(s)\<close> and \<^verbatim>\<open>int(s)\<close> is a parameter of
  the model: a string the reader does not accept raises \<open>ValueError\<close>.
\<close>

record pyconv =
  str_float :: "string \<Rightarrow> real option"
  str_int :: "string \<Rightarrow> int option"

text \<open>\<^verbatim>\<open>float(v)\<close>.\<close>

fun py_float :: "pyconv \<Rightarrow> json \<Rightarrow> error + real" where
  "py_float cv (JNum r) = Inr r"
| "py_float cv (JBool b) = Inr (if b then 1 else 0)"
| "py_float cv (JStr s) = (case str_float cv s of Some r \<Rightarrow> Inr r | None \<Rightarrow> Inl ValueError)"
| "py_float cv v = Inl TypeError"

text \<open>\<^verbatim>\<open>int(v)\<close>: a float is truncated towards zero.\<close>

definition int_of_float :: "real \<Rightarrow> int" where
  "int_of_float r = (if 0 \<le> r then \<lfloor>r\<rfloor> else \<lceil>r\<rceil>)"

fun py_int :: "pyconv \<Rightarrow> json \<Rightarrow> error + int" where
  "py_int cv (JNum r) = Inr (int_of_float r)"
| "py_int cv (JBool b) = Inr (if b then 1 else 0)"
| "py_int cv (JStr s) = (case str_int cv s of Some i \<Rightarrow> Inr i | None \<Rightarrow> Inl ValueError)"
| "py_int cv v = Inl TypeError"


text \<open>\<^verbatim>\<open>v[key]\<close> with a string key: only a dict accepts it.\<close>

fun subscript :: "json \<Rightarrow> string \<Rightarrow> error + json" where
  "subscript (JObj kvs) k = (case map_of kvs k of Some v \<Rightarrow> Inr v | None \<Rightarrow> Inl KeyError)"
| "subscript v k = Inl TypeError"


text \<open>
  Iteration over a value, as in \<^verbatim>\<open>for x in v\<close> and in tuple unpacking: a list gives its
  elements, a string its characters, a dict its keys.
\<close>

fun py_iter :: "json \<Rightarrow> error + json list" where
  "py_iter (JArr xs) = Inr xs"
| "py_iter (JStr s) = Inr (map (\<lambda>c. JStr [c]) s)"
| "py_iter (JObj kvs) = Inr (map (\<lambda>kv. JStr (fst kv)) kvs)"
| "py_iter v = Inl TypeError"

text \<open>\<^verbatim>\<open>a, b = v\<close>.\<close>

definition unpack2 :: "json \<Rightarrow> error + (json \<times> json)" where
  "unpack2 v =
     (case py_iter v of
        Inl e \<Rightarrow> Inl e
      | Inr [a, b] \<Rightarrow> Inr (a, b)
      | Inr _ \<Rightarrow> Inl ValueError)"




text \<open>\<^verbatim>\<open>v / 1000.0\<close>: only a number (or a bool) divides.\<close>

fun div_1000 :: "json \<Rightarrow> error + real" where
  "div_1000 (JNum r) = Inr (r / 1000)"
| "div_1000 (JBool b) = Inr ((if b then 1 else 0) / 1000)"
| "div_1000 v = Inl TypeError"

text \<open>
  A reader of unsigned decimal numerals, the instance of the conversion parameter used in
  the examples.
\<close>

definition digit :: "char \<Rightarrow> nat option" where
  "digit c = map_of (zip ''0123456789'' [0, 1, 2, 3, 4, 5, 6, 7, 8, 9]) c"

fun digits :: "nat \<Rightarrow> string \<Rightarrow> nat option" where
  "digits acc [] = Some acc"
| "digits acc (c # cs) = (case digit c of None \<Rightarrow> None | Some d \<Rightarrow> digits (10 * acc + d) cs)"

definition decimal :: "string \<Rightarrow> nat option" where
  "decimal s = (if s = [] then None else digits 0 s)"

definition decimal_conv :: pyconv where
  "decimal_conv =
     \<lparr>str_float = (\<lambda>s. map_option real (decimal s)),
      str_int = (\<lambda>s. map_option int (decimal s))\<rparr>"

section \<open>The local order book\<close>

text \<open>
  A side of the book is a Python dict from price to quantity: an association list with
  distinct keys in insertion order. \<^verbatim>\<open>d[p] = q\<close> is \<open>DAList.update\<close> (an existing key
  keeps its place) and \<^verbatim>\<open>d.pop(p, None)\<close> is \<open>DAList.delete\<close>.
\<close>

type_synonym side = "(real, real) alist"

record LocalOrderBook =
  symbol :: string
  bids :: side
  asks :: side
  last_update_id :: json

text \<open>\<^verbatim>\<open>LocalOrderBook(symbol)\<close>.\<close>

definition init :: "string \<Rightarrow> LocalOrderBook" where
  "init name = \<lparr>symbol = name, bids = DAList.empty, asks = DAList.empty, last_update_id = JNum 0\<rparr>"

text \<open>
  The loop of \<^verbatim>\<open>upsert_side\<close> changes the dict in place, one update after the other.
  When an update cannot be unpacked or converted the exception leaves the loop and the
  dict keeps the updates applied so far: the result is the dict together with the
  exception, if any.
\<close>

fun upsert_loop :: "pyconv \<Rightarrow> side \<Rightarrow> json list \<Rightarrow> side \<times> error option" where
  "upsert_loop cv side_dict [] = (side_dict, None)"
| "upsert_loop cv side_dict (u # updates) =
     (case unpack2 u of
        Inl e \<Rightarrow> (side_dict, Some e)
      | Inr (price, qty) \<Rightarrow>
          (case py_float cv price of
             Inl e \<Rightarrow> (side_dict, Some e)
           | Inr p \<Rightarrow>
               (case py_float cv qty of
                  Inl e \<Rightarrow> (side_dict, Some e)
                | Inr q \<Rightarrow>
                    upsert_loop cv
                      (if q = 0 then DAList.delete p side_dict else DAList.update p q side_dict)
                      updates)))"

text \<open>\<^verbatim>\<open>upsert_side(side_dict, updates)\<close>: \<open>updates\<close> is whatever the message carries.\<close>

definition upsert_side :: "pyconv \<Rightarrow> side \<Rightarrow> json \<Rightarrow> side \<times> error option" where
  "upsert_side cv side_dict updates =
     (case py_iter updates of
        Inl e \<Rightarrow> (side_dict, Some e)
      | Inr us \<Rightarrow> upsert_loop cv side_dict us)"






text \<open>\<^verbatim>\<open>xs[:n]\<close>: a negative bound counts from the end.\<close>

definition slice_to :: "int \<Rightarrow> 'a list \<Rightarrow> 'a list" where
  "slice_to n xs = (if 0 \<le> n then take (nat n) xs else take (length xs - nat (- n)) xs)"

text \<open>The dict returned by \<^verbatim>\<open>snapshot\<close>; \<open>now\<close> is the reading of \<^verbatim>\<open>time.time()\<close>.\<close>

record DepthSnapshot =
  d_symbol :: string
  d_ts :: real
  d_bids :: "(real \<times> real) list"
  d_asks :: "(real \<times> real) list"
  d_last_update_id :: json

definition snapshot :: "real \<Rightarrow> LocalOrderBook \<Rightarrow> int \<Rightarrow> DepthSnapshot" where
  "snapshot now lob top_n =
     \<lparr>d_symbol = symbol lob,
      d_ts = now,
      d_bids = slice_to top_n (sort_key (\<lambda>x. - fst x) (DAList.impl_of (bids lob))),
      d_asks = slice_to top_n (sort_key (\<lambda>x. fst x) (DAList.impl_of (asks lob))),
      d_last_update_id = last_update_id lob\<rparr>"

text \<open>No level of the side has quantity \<open>0\<close>.\<close>

definition no_zero :: "side \<Rightarrow> bool" where
  "no_zero d = list_all (\<lambda>kv. snd kv \<noteq> 0) (DAList.impl_of d)"

section \<open>Symbol normalisation\<close>

text \<open>
  \<^verbatim>\<open>split_symbol(exchange, venue_sym)\<close> returns \<open>(base, quote, normalized_symbol)\<close>.
  Each branch of the \<^verbatim>\<open>if/elif\<close> chain that does not return falls through to the
  fallback of the last line. The tuple assignment \<^verbatim>\<open>base, quote = s.split("-")\<close> of
  the OKX branch raises \<open>ValueError\<close> unless the split has exactly two parts; the Korean
  branches test \<^verbatim>\<open>len(parts) == 2\<close> before they unpack. In the Coinone and Korbit
  branches the parts are upper-cased once more.
\<close>

definition split_symbol :: "string \<Rightarrow> string \<Rightarrow> error + (string \<times> string \<times> string)" where
  "split_symbol exchange venue_sym =
     (let s = str_upper venue_sym;
          fallback = Inr (venue_sym, [], venue_sym)
      in
      if exchange = ''upbit'' then
        (case str_split (CHR ''-'') s of
           [quote, base] \<Rightarrow> Inr (base, quote, base @ ''-'' @ quote)
         | _ \<Rightarrow> fallback)
      else if exchange = ''bithumb'' then
        (case str_split (CHR ''_'') s of
           [base, quote] \<Rightarrow> Inr (base, quote, base @ ''-'' @ quote)
         | _ \<Rightarrow> fallback)
      else if exchange = ''coinone'' then
        (case str_split (CHR ''-'') s of
           [base, quote] \<Rightarrow>
             Inr (str_upper base, str_upper quote, str_upper base @ ''-'' @ str_upper quote)
         | _ \<Rightarrow> fallback)
      else if exchange = ''korbit'' then
        (case str_split (CHR ''_'') s of
           [base, quote] \<Rightarrow>
             Inr (str_upper base, str_upper quote, str_upper base @ ''-'' @ str_upper quote)
         | _ \<Rightarrow> fallback)
      else if exchange = ''binance'' then
        (if str_endswith s ''USDT''
         then (let base = take (length s - 4) s in Inr (base, ''USDT'', base @ ''-USD''))
         else fallback)
      else if exchange = ''okx'' then
        (if CHR ''-'' \<in> set s then
           (case str_split (CHR ''-'') s of
              [base, quote] \<Rightarrow>
                (if quote = ''USDT'' then Inr (base, quote, base @ ''-USD'') else fallback)
            | _ \<Rightarrow> Inl ValueError)
         else fallback)
      else if exchange = ''bybit'' then
        (if str_endswith s ''USDT''
         then (let base = take (length s - 4) s in Inr (base, ''USDT'', base @ ''-USD''))
         else fallback)
      else fallback)"

text \<open>\<^verbatim>\<open>get_region(exchange, quote)\<close>.\<close>

definition get_region :: "string \<Rightarrow> string \<Rightarrow> string" where
  "get_region exchange quote =
     (if exchange \<in> {''upbit'', ''bithumb'', ''coinone'', ''korbit''} \<or> quote = ''KRW''
      then ''KR'' else ''GLOBAL'')"

section \<open>Streamers\<close>

text \<open>The event dict built by \<^verbatim>\<open>publish\<close> and passed through the queues.\<close>

record event =
  ev_exchange :: string
  ev_symbol :: string
  ev_venue_symbol :: string
  ev_event_ts :: real
  ev_recv_ts :: real
  ev_seq :: json
  ev_depth :: DepthSnapshot
  ev_raw :: json

text \<open>
  \<^verbatim>\<open>BaseStreamer\<close>: \<open>symbol_map\<close> maps the unified symbol to the venue symbol, and
  \<open>books\<close> holds one book for each unified symbol. The output queue is the central queue
  of the pipeline below.
\<close>

record BaseStreamer =
  exchange :: string
  symbol_map :: "(string \<times> string) list"
  books :: "(string \<times> LocalOrderBook) list"

definition streamer :: "string \<Rightarrow> (string \<times> string) list \<Rightarrow> BaseStreamer" where
  "streamer ex smap =
     \<lparr>exchange = ex, symbol_map = smap, books = map (\<lambda>kv. (fst kv, init (fst kv))) smap\<rparr>"

text \<open>
  \<^verbatim>\<open>publish\<close> builds the event that is put on the output queue; \<open>now\<close> is its reading
  of the clock.
\<close>

definition publish ::
  "BaseStreamer \<Rightarrow> real \<Rightarrow> string \<Rightarrow> real \<Rightarrow> json \<Rightarrow> DepthSnapshot \<Rightarrow> json \<Rightarrow> string \<Rightarrow> event" where
  "publish self now unified event_ts seq depth raw venue_sym =
     \<lparr>ev_exchange = exchange self,
      ev_symbol = unified,
      ev_venue_symbol =
        (if venue_sym \<noteq> [] then venue_sym
         else (case map_of (symbol_map self) unified of Some v \<Rightarrow> v | None \<Rightarrow> unified)),
      ev_event_ts = event_ts,
      ev_recv_ts = now,
      ev_seq = seq,
      ev_depth = depth,
      ev_raw = raw\<rparr>"


text \<open>
  The handling of one message returns the new state and either an exception, or
  \<open>None\<close> for \<^verbatim>\<open>continue\<close>, or the event passed to \<^verbatim>\<open>publish\<close>. \<open>clock i\<close> is the
  \<open>i\<close>-th reading of \<^verbatim>\<open>time.time()\<close> while the message is handled.

  The body of the \<^verbatim>\<open>async for\<close> loop of \<^verbatim>\<open>BinanceStreamer._one\<close>, after
  \<^verbatim>\<open>json.loads\<close>; \<open>lob\<close> is the book of the task's symbol.
\<close>

definition binance_on_message ::
  "pyconv \<Rightarrow> (nat \<Rightarrow> real) \<Rightarrow> BaseStreamer \<Rightarrow> string \<Rightarrow> string \<Rightarrow> LocalOrderBook \<Rightarrow> json
   \<Rightarrow> LocalOrderBook \<times> (error + event option)" where
  "binance_on_message cv clock self unified_sym venue_sym lob msg =
     (case subscript msg ''data'' of
        Inl e \<Rightarrow> (lob, Inl e)
      | Inr data \<Rightarrow>
     (case subscript data ''b'' of
        Inl e \<Rightarrow> (lob, Inl e)
      | Inr b \<Rightarrow>
     (case upsert_side cv (bids lob) b of
        (bids1, Some e) \<Rightarrow> (lob\<lparr>bids := bids1\<rparr>, Inl e)
      | (bids1, None) \<Rightarrow>
     (let lob1 = lob\<lparr>bids := bids1\<rparr> in
      case subscript data ''a'' of
        Inl e \<Rightarrow> (lob1, Inl e)
      | Inr a \<Rightarrow>
     (case upsert_side cv (asks lob1) a of
        (asks1, Some e) \<Rightarrow> (lob1\<lparr>asks := asks1\<rparr>, Inl e)
      | (asks1, None) \<Rightarrow>
     (let lob2 = lob1\<lparr>asks := asks1\<rparr> in
      case subscript data ''u'' of
        Inl e \<Rightarrow> (lob2, Inl e)
      | Inr u \<Rightarrow>
     (let lob3 = lob2\<lparr>last_update_id := u\<rparr> in
      case andthen (subscript data ''E'') div_1000 of
        Inl e \<Rightarrow> (lob3, Inl e)
      | Inr event_ts \<Rightarrow>
          (lob3, Inr (Some (publish self (clock 1) unified_sym event_ts u
                              (snapshot (clock 0) lob3 20) data venue_sym))))))))))"



text \<open>
  What the websocket iteration delivers next: a frame that \<^verbatim>\<open>json.loads\<close> reads as a
  value, a frame it rejects, a transport failure raised by the iteration, or the normal
  end of the iteration.
\<close>

datatype wire = Text json | Garbage | Failure | Closed

text \<open>
  What the streamer does with it. Every \<^verbatim>\<open>run\<close> and \<^verbatim>\<open>_one\<close> has the shape
  \<^verbatim>\<open>while True: try: async with connect(...) as ws: ... async for raw in ws: <body>
  except Exception as e: print(...); await asyncio.sleep(5)\<close>.
  An exception raised anywhere inside leaves the \<^verbatim>\<open>async with\<close> block, which closes the
  websocket, and reaches the only handler: \<open>Reconnect e\<close> stands for closing the
  connection, printing \<open>e\<close>, sleeping five seconds and connecting again. \<open>Reopen\<close> is
  the normal end of the iteration, which reconnects at once. After \<open>Published\<close> and
  \<open>Skipped\<close> the loop reads the next frame from the same connection.
\<close>

datatype effect = Published event | Skipped | Reconnect error | Reopen

definition on_wire ::
  "('s \<Rightarrow> json \<Rightarrow> 's \<times> (error + event option)) \<Rightarrow> 's \<Rightarrow> wire \<Rightarrow> 's \<times> effect" where
  "on_wire body st w =
     (case w of
        Text msg \<Rightarrow>
          (case body st msg of
             (st', Inl e) \<Rightarrow> (st', Reconnect e)
           | (st', Inr None) \<Rightarrow> (st', Skipped)
           | (st', Inr (Some ev)) \<Rightarrow> (st', Published ev))
      | Garbage \<Rightarrow> (st, Reconnect ValueError)
      | Failure \<Rightarrow> (st, Reconnect TransportError)
      | Closed \<Rightarrow> (st, Reopen))"

text \<open>The effects of a run of the loop over the successive deliveries.\<close>

fun run_streamer ::
  "('s \<Rightarrow> json \<Rightarrow> 's \<times> (error + event option)) \<Rightarrow> 's \<Rightarrow> wire list \<Rightarrow> 's \<times> effect list" where
  "run_streamer body st [] = (st, [])"
| "run_streamer body st (w # ws) =
     (case on_wire body st w of
        (st', eff) \<Rightarrow> (case run_streamer body st' ws of (st'', effs) \<Rightarrow> (st'', eff # effs)))"

section \<open>Queues and the broadcaster\<close>

text \<open>
  \<^verbatim>\<open>asyncio.Queue(maxsize)\<close> as the Python library documents it: with
  \<open>maxsize \<le> 0\<close> the queue is never full. \<open>put\<close> is \<open>None\<close> when the queue is full,
  where \<^verbatim>\<open>await q.put(ev)\<close> suspends.
\<close>

record 'a queue =
  maxsize :: int
  items :: "'a list"

definition Queue :: "int \<Rightarrow> 'a queue" where
  "Queue m = \<lparr>maxsize = m, items = []\<rparr>"

definition full :: "'a queue \<Rightarrow> bool" where
  "full q = (if maxsize q \<le> 0 then False else maxsize q \<le> int (length (items q)))"

definition put :: "'a queue \<Rightarrow> 'a \<Rightarrow> 'a queue option" where
  "put q x = (if full q then None else Some (q\<lparr>items := items q @ [x]\<rparr>))"

text \<open>\<^verbatim>\<open>await q.put(x)\<close> for each element of a list, in order.\<close>

fun put_all :: "'a queue \<Rightarrow> 'a list \<Rightarrow> 'a queue option" where
  "put_all q [] = Some q"
| "put_all q (x # xs) = (case put q x of None \<Rightarrow> None | Some q' \<Rightarrow> put_all q' xs)"

text \<open>
  The queues created by \<^verbatim>\<open>main\<close>, each by \<^verbatim>\<open>asyncio.Queue()\<close> with the default
  \<open>maxsize = 0\<close>.
\<close>

record 'a main_queues =
  central_q :: "'a queue"
  realtime_q :: "'a queue"
  file_q :: "'a queue"
  db_batch_q :: "'a list queue"
  db_staging_q :: "'a queue"

definition main_queues :: "'a main_queues" where
  "main_queues =
     \<lparr>central_q = Queue 0, realtime_q = Queue 0, file_q = Queue 0,
      db_batch_q = Queue 0, db_staging_q = Queue 0\<rparr>"

text \<open>
  The broadcaster task, the streamers that feed it and the consumers that drain its
  destination queues, as a transition system. \<open>in_hand\<close> is the event \<open>ev\<close> of the
  broadcaster's loop together with the number of destination queues that already
  received it; \<open>taken\<close> records what each consumer has taken from its queue.
\<close>

record 'a fanout =
  src_q :: "'a queue"
  in_hand :: "('a \<times> nat) option"
  dst_queues :: "'a queue list"
  taken :: "'a list list"

text \<open>
  \<open>Publish ev\<close>: a streamer completes \<^verbatim>\<open>await self.out_q.put(ev)\<close>.
  \<open>Get\<close>: the broadcaster completes \<^verbatim>\<open>ev = await src_q.get()\<close>.
  \<open>Put\<close>: it completes the next \<^verbatim>\<open>await q.put(ev)\<close> of \<^verbatim>\<open>for q in dst_queues\<close>.
  \<open>Done\<close>: the \<^verbatim>\<open>for\<close> loop is over and \<^verbatim>\<open>src_q.task_done()\<close> is called.
  \<open>Take j\<close>: consumer \<open>j\<close> completes \<^verbatim>\<open>await q.get()\<close>.
  A step is \<open>None\<close> when the task cannot take it in that state: it stays suspended.
\<close>

datatype 'a action = Publish 'a | Get | Put | Done | Take nat

fun step :: "'a action \<Rightarrow> 'a fanout \<Rightarrow> 'a fanout option" where
  "step (Publish ev) s =
     (case put (src_q s) ev of
        None \<Rightarrow> None
      | Some q \<Rightarrow> Some (s\<lparr>src_q := q\<rparr>))"
| "step Get s =
     (case in_hand s of
        Some h \<Rightarrow> None
      | None \<Rightarrow>
          (case items (src_q s) of
             [] \<Rightarrow> None
           | ev # rest \<Rightarrow> Some (s\<lparr>src_q := (src_q s)\<lparr>items := rest\<rparr>, in_hand := Some (ev, 0)\<rparr>)))"
| "step Put s =
     (case in_hand s of
        None \<Rightarrow> None
      | Some (ev, i) \<Rightarrow>
          if i < length (dst_queues s) then
            (case put (dst_queues s ! i) ev of
               None \<Rightarrow> None
             | Some q \<Rightarrow>
                 Some (s\<lparr>dst_queues := (dst_queues s)[i := q], in_hand := Some (ev, Suc i)\<rparr>))
          else None)"
| "step Done s =
     (case in_hand s of
        None \<Rightarrow> None
      | Some (ev, i) \<Rightarrow> if i = length (dst_queues s) then Some (s\<lparr>in_hand := None\<rparr>) else None)"
| "step (Take j) s =
     (if j < length (dst_queues s) then
        (case items (dst_queues s ! j) of
           [] \<Rightarrow> None
         | x # xs \<Rightarrow>
             Some (s\<lparr>dst_queues := (dst_queues s)[j := (dst_queues s ! j)\<lparr>items := xs\<rparr>],
                     taken := (taken s)[j := taken s ! j @ [x]]\<rparr>))
      else None)"

fun run :: "'a action list \<Rightarrow> 'a fanout \<Rightarrow> 'a fanout option" where
  "run [] s = Some s"
| "run (a # as) s = (case step a s of None \<Rightarrow> None | Some s' \<Rightarrow> run as s')"

text \<open>The system at start: empty queues with the given bounds, nothing taken.\<close>

definition fanout :: "int \<Rightarrow> int list \<Rightarrow> 'a fanout" where
  "fanout m ms =
     \<lparr>src_q = Queue m, in_hand = None, dst_queues = map Queue ms,
      taken = map (\<lambda>m. []) ms\<rparr>"




section \<open>The batcher\<close>

text \<open>
  One iteration of the loop of \<^verbatim>\<open>batcher\<close> observes what
  \<^verbatim>\<open>asyncio.wait_for(src_q.get(), timeout=max_wait)\<close> gives, an event or the timeout,
  and then the clock \<open>now\<close>. The state is the buffer and the time of the last flush;
  the result holds the batch put on the destination queue, if any.
\<close>

datatype 'a arrival = Got 'a | Timeout

record 'a batcher =
  buf :: "'a list"
  last_flush :: real

definition batcher_iter ::
  "int \<Rightarrow> real \<Rightarrow> 'a batcher \<Rightarrow> 'a arrival \<times> real \<Rightarrow> 'a batcher \<times> 'a list list" where
  "batcher_iter batch_size max_wait st obs =
     (let buf1 = (case fst obs of Got ev \<Rightarrow> buf st @ [ev] | Timeout \<Rightarrow> buf st);
          now = snd obs;
          should_flush =
            (if batch_size \<le> int (length buf1) then True
             else if buf1 \<noteq> [] \<and> max_wait \<le> now - last_flush st then True
             else False)
      in if should_flush \<and> buf1 \<noteq> [] then (\<lparr>buf = [], last_flush = now\<rparr>, [buf1])
         else (st\<lparr>buf := buf1\<rparr>, []))"

text \<open>The loop over a finite sequence of iterations: the final state and the batches emitted.\<close>

fun batcher_run ::
  "int \<Rightarrow> real \<Rightarrow> 'a batcher \<Rightarrow> ('a arrival \<times> real) list \<Rightarrow> 'a batcher \<times> 'a list list" where
  "batcher_run batch_size max_wait st [] = (st, [])"
| "batcher_run batch_size max_wait st (obs # rest) =
     (case batcher_iter batch_size max_wait st obs of
        (st', out) \<Rightarrow>
          (case batcher_run batch_size max_wait st' rest of
             (st'', outs) \<Rightarrow> (st'', out @ outs)))"

text \<open>\<^verbatim>\<open>batcher\<close> started at time \<open>t0\<close>: empty buffer, \<open>last_flush = t0\<close>.\<close>

definition batcher ::
  "int \<Rightarrow> real \<Rightarrow> real \<Rightarrow> ('a arrival \<times> real) list \<Rightarrow> 'a batcher \<times> 'a list list" where
  "batcher batch_size max_wait t0 trace =
     batcher_run batch_size max_wait \<lparr>buf = [], last_flush = t0\<rparr> trace"


text \<open>Consecutive readings of the clock are less than \<open>w\<close> apart.\<close>

fun gaps_below :: "real \<Rightarrow> real list \<Rightarrow> bool" where
  "gaps_below w (t # t' # ts) = (t' - t < w \<and> gaps_below w (t' # ts))"
| "gaps_below w ts = True"

text \<open>
  Every iteration of the trace reads an event, and reads the clock less than
  \<open>max_wait\<close> after the last flush (after the start, while nothing has been flushed).
\<close>

fun prompt :: "int \<Rightarrow> real \<Rightarrow> 'a batcher \<Rightarrow> ('a arrival \<times> real) list \<Rightarrow> bool" where
  "prompt batch_size max_wait st [] = True"
| "prompt batch_size max_wait st ((Timeout, now) # rest) = False"
| "prompt batch_size max_wait st ((Got ev, now) # rest) =
     (now - last_flush st < max_wait
      \<and> prompt batch_size max_wait (fst (batcher_iter batch_size max_wait st (Got ev, now))) rest)"

section \<open>The storage ingestor\<close>

text \<open>
  A row passed to \<^verbatim>\<open>sender.row\<close>: the tags, the columns and the timestamp. The two JSON
  columns keep the value that \<^verbatim>\<open>json.dumps\<close> serialises.
\<close>

record row =
  tag_exchange :: string
  tag_symbol :: string
  tag_base :: string
  tag_quote :: string
  tag_region :: string
  tag_venue_type :: string
  tag_instance :: string
  col_seq :: int
  best_bid :: "real option"
  best_ask :: "real option"
  mid_price :: "real option"
  spread_bps :: "real option"
  recv_ts_s :: real
  depth_json :: DepthSnapshot
  raw_json :: json
  at_ns :: int

text \<open>\<^verbatim>\<open>_ns(sec)\<close>.\<close>

definition ns :: "real \<Rightarrow> int" where
  "ns sec = int_of_float (sec * 1000000000)"

text \<open>\<^verbatim>\<open>float(levels[0][0]) if levels else None\<close>.\<close>

definition best_price :: "(real \<times> real) list \<Rightarrow> real option" where
  "best_price levels = (case levels of [] \<Rightarrow> None | l # ls \<Rightarrow> Some (fst l))"

text \<open>
  The derived metrics. \<^verbatim>\<open>if best_bid and best_ask\<close> tests the truth value of both:
  \<open>None\<close> is false and so is the float \<open>0.0\<close>. The division raises when the mid price
  is zero.
\<close>

definition metrics :: "real option \<Rightarrow> real option \<Rightarrow> error + (real option \<times> real option)" where
  "metrics bid ask =
     (case (bid, ask) of
        (Some b, Some a) \<Rightarrow>
          if b \<noteq> 0 \<and> a \<noteq> 0 then
            (let mid = (b + a) / 2
             in if mid = 0 then Inl ZeroDivisionError
                else Inr (Some mid, Some ((a - b) / mid * 10000)))
          else Inr (None, None)
      | _ \<Rightarrow> Inr (None, None))"

text \<open>The body of the \<^verbatim>\<open>try\<close> block of \<^verbatim>\<open>questdb_consumer\<close> up to the call of \<^verbatim>\<open>sender.row\<close>.\<close>

definition questdb_row :: "pyconv \<Rightarrow> event \<Rightarrow> error + row" where
  "questdb_row cv ev =
     andthen (split_symbol (ev_exchange ev) (ev_venue_symbol ev)) (\<lambda>(base, quote, normalized).
     let region = get_region (ev_exchange ev) quote;
         bid = best_price (d_bids (ev_depth ev));
         ask = best_price (d_asks (ev_depth ev))
     in
     andthen (metrics bid ask) (\<lambda>(mid, spread).
     andthen (py_int cv (ev_seq ev)) (\<lambda>seq.
     Inr \<lparr>tag_exchange = ev_exchange ev,
          tag_symbol = normalized,
          tag_base = base,
          tag_quote = quote,
          tag_region = region,
          tag_venue_type = ''SPOT'',
          tag_instance = ''A'',
          col_seq = seq,
          best_bid = bid,
          best_ask = ask,
          mid_price = mid,
          spread_bps = spread,
          recv_ts_s = ev_recv_ts ev,
          depth_json = ev_depth ev,
          raw_json = ev_raw ev,
          at_ns = ns (ev_event_ts ev)\<rparr>)))"

text \<open>
  The store's client is outside the program: \<open>row_error\<close> says what \<^verbatim>\<open>sender.row\<close>
  raises for a row, if anything, and \<open>flush_error\<close> what \<^verbatim>\<open>sender.flush\<close> raises for the
  buffered rows.
\<close>

record client =
  row_error :: "row \<Rightarrow> error option"
  flush_error :: "row list \<Rightarrow> error option"

datatype line = Error_processing error | Flushed nat

text \<open>
  The state of the consumer: the rows the sender has buffered, the flushes made so far and
  the lines printed.
\<close>

record ingestor =
  buffered :: "row list"
  flushes :: "row list list"
  printed :: "line list"

text \<open>One pass of \<^verbatim>\<open>for ev in batch\<close>: the \<^verbatim>\<open>except\<close> clause prints and continues.\<close>

definition questdb_event :: "pyconv \<Rightarrow> client \<Rightarrow> ingestor \<Rightarrow> event \<Rightarrow> ingestor" where
  "questdb_event cv cl st ev =
     (case questdb_row cv ev of
        Inl e \<Rightarrow> st\<lparr>printed := printed st @ [Error_processing e]\<rparr>
      | Inr r \<Rightarrow>
          (case row_error cl r of
             Some e \<Rightarrow> st\<lparr>printed := printed st @ [Error_processing e]\<rparr>
           | None \<Rightarrow> st\<lparr>buffered := buffered st @ [r]\<rparr>))"

text \<open>
  One iteration of the \<^verbatim>\<open>while\<close> loop of \<^verbatim>\<open>questdb_consumer\<close> for a batch taken from
  the queue. \<^verbatim>\<open>sender.flush()\<close> is outside the \<^verbatim>\<open>try\<close> block: its exception ends the
  task.
\<close>

definition questdb_batch :: "pyconv \<Rightarrow> client \<Rightarrow> ingestor \<Rightarrow> event list \<Rightarrow> error + ingestor" where
  "questdb_batch cv cl st batch =
     (let st1 = foldl (questdb_event cv cl) st batch
      in case flush_error cl (buffered st1) of
           Some e \<Rightarrow> Inl e
         | None \<Rightarrow>
             Inr \<lparr>buffered = [],
                  flushes = flushes st1 @ [buffered st1],
                  printed = printed st1 @ [Flushed (length batch)]\<rparr>)"

text \<open>The row of an event that is built and accepted, and the line printed otherwise.\<close>

definition accepted :: "pyconv \<Rightarrow> client \<Rightarrow> event \<Rightarrow> row option" where
  "accepted cv cl ev =
     (case questdb_row cv ev of
        Inl e \<Rightarrow> None
      | Inr r \<Rightarrow> (case row_error cl r of Some e \<Rightarrow> None | None \<Rightarrow> Some r))"

definition rejected :: "pyconv \<Rightarrow> client \<Rightarrow> event \<Rightarrow> line option" where
  "rejected cv cl ev =
     (case questdb_row cv ev of
        Inl e \<Rightarrow> Some (Error_processing e)
      | Inr r \<Rightarrow> (case row_error cl r of Some e \<Rightarrow> Some (Error_processing e) | None \<Rightarrow> None))"

section \<open>Properties of the symbol normaliser\<close>

lemma str_split_nonempty: "str_split sep s \<noteq> []"
  by (induction s) (auto split: list.splits)

lemma str_split_no_sep: "sep \<notin> set s \<Longrightarrow> str_split sep s = [s]"
  by (induction s) auto

lemma str_split_append:
  "sep \<notin> set a \<Longrightarrow> str_split sep (a @ sep # b) = a # str_split sep b"
  by (induction a) auto

lemma str_endswith_append: "str_endswith (base @ suf) suf"
  by (simp add: str_endswith_def)

text \<open>
  Outside the OKX branch the function returns for every input: the other branches guard
  their unpacking.
\<close>

lemma split_symbol_returns:
  "ex \<noteq> ''okx'' \<Longrightarrow> \<exists>r. split_symbol ex venue_sym = Inr r"
  unfolding split_symbol_def Let_def
  by (simp split: list.split)

text \<open>
  Claim C8. The normaliser is meant to be total, with the fallback
  \<open>(venue_sym, "", venue_sym)\<close> for every unrecognised format. The OKX branch misses the
  length test of its sibling branches: with two hyphens in the symbol, as in the OKX
  instrument \<open>BTC-USDT-SWAP\<close>, the unpacking raises \<open>ValueError\<close> instead of reaching
  the fallback.
\<close>

theorem split_symbol_okx_raises:
  "split_symbol ''okx'' ''BTC-USDT-SWAP'' = Inl ValueError"
  by (simp add: split_symbol_def str_upper_def upper_char_def)

text \<open>
  Claim C9. \<open>split_symbol("binance", "dogeusdt")\<close> is \<open>(DOGE, USDT, DOGE-USD)\<close> and
  \<open>split_symbol("upbit", "KRW-BTC")\<close> is \<open>(BTC, KRW, BTC-KRW)\<close>. For every USDT-quoted
  pair of a global exchange (upper-cased symbol \<open>base @ USDT\<close> on Binance and Bybit,
  \<open>base-USDT\<close> with a hyphen-free base on OKX) the quote component stays \<open>USDT\<close> and
  the canonical symbol is \<open>base-USD\<close>.
\<close>

theorem split_symbol_usdt_display:
  "split_symbol ''binance'' ''dogeusdt'' = Inr (''DOGE'', ''USDT'', ''DOGE-USD'')
   \<and> split_symbol ''upbit'' ''KRW-BTC'' = Inr (''BTC'', ''KRW'', ''BTC-KRW'')
   \<and> ((ex = ''binance'' \<or> ex = ''bybit'') \<and> str_upper sym1 = base1 @ ''USDT''
        \<longrightarrow> split_symbol ex sym1 = Inr (base1, ''USDT'', base1 @ ''-USD''))
   \<and> (str_upper sym2 = base2 @ ''-USDT'' \<and> CHR ''-'' \<notin> set base2
        \<longrightarrow> split_symbol ''okx'' sym2 = Inr (base2, ''USDT'', base2 @ ''-USD''))"
proof (intro conjI impI)
  show "split_symbol ''binance'' ''dogeusdt'' = Inr (''DOGE'', ''USDT'', ''DOGE-USD'')"
    by (simp add: split_symbol_def str_upper_def upper_char_def str_endswith_def)
  show "split_symbol ''upbit'' ''KRW-BTC'' = Inr (''BTC'', ''KRW'', ''BTC-KRW'')"
    by (simp add: split_symbol_def str_upper_def upper_char_def)
next
  assume h: "(ex = ''binance'' \<or> ex = ''bybit'') \<and> str_upper sym1 = base1 @ ''USDT''"
  then show "split_symbol ex sym1 = Inr (base1, ''USDT'', base1 @ ''-USD'')"
    by (auto simp: split_symbol_def Let_def str_endswith_append)
next
  assume h: "str_upper sym2 = base2 @ ''-USDT'' \<and> CHR ''-'' \<notin> set base2"
  then have "str_split (CHR ''-'') (str_upper sym2) = [base2, ''USDT'']"
    using str_split_append [of "CHR ''-''" base2 "''USDT''"] by simp
  with h show "split_symbol ''okx'' sym2 = Inr (base2, ''USDT'', base2 @ ''-USD'')"
    by (simp add: split_symbol_def)
qed

theorem split_symbol_usdt_display_witness:
  "split_symbol ''bybit'' ''BTCUSDT'' = Inr (''BTC'', ''USDT'', ''BTC-USD'')
   \<and> split_symbol ''okx'' ''eth-usdt'' = Inr (''ETH'', ''USDT'', ''ETH-USD'')"
  using split_symbol_usdt_display
    [of "''bybit''" "''BTCUSDT''" "''BTC''" "''eth-usdt''" "''ETH''"]
  by (simp add: str_upper_def upper_char_def)

section \<open>Properties of the local order book\<close>

lemma decimal_simps:
  "str_float decimal_conv s = map_option real (decimal s)"
  "str_int decimal_conv s = map_option int (decimal s)"
  by (simp_all add: decimal_conv_def)






lemma no_zero_lookup: "no_zero d \<longleftrightarrow> (\<forall>p. DAList.lookup d p \<noteq> Some 0)"
proof -
  have "distinct (map fst (DAList.impl_of d))" by simp
  then have "\<And>p q. (map_of (DAList.impl_of d) p = Some q) = ((p, q) \<in> set (DAList.impl_of d))"
    by simp
  then show ?thesis
    unfolding no_zero_def DAList.lookup.rep_eq list_all_iff by fastforce
qed











section \<open>Properties of the streamers\<close>

text \<open>
  A run of the Binance loop over a subscription reply, a broken transport and a depth update:
  the loop reconnects twice and then publishes, the book being the one it started with.
\<close>

lemma run_streamer_resumes:
  "map (\<lambda>eff. case eff of Published ev \<Rightarrow> ''published'' | Skipped \<Rightarrow> ''skipped''
                 | Reconnect e \<Rightarrow> ''reconnect'' | Reopen \<Rightarrow> ''reopen'')
     (snd (run_streamer
        (binance_on_message decimal_conv (\<lambda>i. 0) (streamer ''binance'' [(''BTC-USD'', ''btcusdt'')])
           ''BTC-USD'' ''btcusdt'')
        (init ''BTC-USD'')
        [Text (JObj [(''result'', JNull), (''id'', JNum 1)]),
         Failure,
         Text (JObj [(''data'', JObj [(''E'', JNum 1000), (''u'', JNum 7),
                                      (''b'', JArr [JArr [JStr ''100'', JStr ''1'']]),
                                      (''a'', JArr [JArr [JStr ''101'', JStr ''1'']])])])]))
   = [''reconnect'', ''reconnect'', ''published'']"
  by (simp add: on_wire_def binance_on_message_def upsert_side_def unpack2_def andthen_def
      decimal_simps decimal_def digit_def Let_def)




section \<open>Properties of the queues and the broadcaster\<close>

lemma put_all_unbounded:
  "maxsize q \<le> 0 \<Longrightarrow> put_all q xs = Some (q\<lparr>items := items q @ xs\<rparr>)"
  by (induction xs arbitrary: q) (auto simp: put_def full_def)

text \<open>
  Claim C6, as stated, fails: the realtime queue of \<^verbatim>\<open>main\<close> has no capacity bound,
  every sequence of puts completes and the queue holds all of it.
\<close>

theorem main_queues_unbounded:
  "\<not> (\<exists>cap. \<forall>evs q. put_all (realtime_q (main_queues :: event main_queues)) evs = Some q
                      \<longrightarrow> length (items q) \<le> cap)"
proof
  assume "\<exists>cap. \<forall>evs q. put_all (realtime_q (main_queues :: event main_queues)) evs = Some q
                      \<longrightarrow> length (items q) \<le> cap"
  then obtain cap where
    h: "\<And>evs q. put_all (realtime_q (main_queues :: event main_queues)) evs = Some q
                   \<Longrightarrow> length (items q) \<le> cap"
    by blast
  have "put_all (realtime_q (main_queues :: event main_queues)) (replicate (Suc cap) undefined)
        = Some ((realtime_q main_queues)\<lparr>items := items (realtime_q main_queues) @ replicate (Suc cap) undefined\<rparr>)"
    by (rule put_all_unbounded) (simp add: main_queues_def Queue_def)
  from h [OF this] show False by simp
qed

text \<open>
  Claim C6, amended. The queues of \<^verbatim>\<open>main\<close> are created with \<open>maxsize = 0\<close>:
  whatever they hold they are never full, and any sequence of puts on the realtime, file
  and staging queues completes without suspending, the queue holding every event put.
\<close>

theorem main_queues_never_full:
  "maxsize (central_q main_queues) = 0 \<and> maxsize (realtime_q main_queues) = 0
   \<and> maxsize (file_q main_queues) = 0 \<and> maxsize (db_staging_q main_queues) = 0
   \<and> maxsize (db_batch_q main_queues) = 0
   \<and> \<not> full ((realtime_q main_queues)\<lparr>items := xs\<rparr>)
   \<and> \<not> full ((file_q main_queues)\<lparr>items := xs\<rparr>)
   \<and> \<not> full ((db_staging_q main_queues)\<lparr>items := xs\<rparr>)
   \<and> put_all (realtime_q main_queues) evs = Some ((realtime_q main_queues)\<lparr>items := evs\<rparr>)
   \<and> put_all (file_q main_queues) evs = Some ((file_q main_queues)\<lparr>items := evs\<rparr>)
   \<and> put_all (db_staging_q main_queues) evs = Some ((db_staging_q main_queues)\<lparr>items := evs\<rparr>)"
  by (simp add: main_queues_def Queue_def full_def put_all_unbounded)








text \<open>
  When no queue is bounded, as in \<^verbatim>\<open>main\<close>, nothing blocks: an event published to an idle
  broadcaster is taken and put on every consumer queue, after which the broadcaster is idle
  again.
\<close>

lemma run_append:
  "run (xs @ ys) s = (case run xs s of None \<Rightarrow> None | Some s' \<Rightarrow> run ys s')"
  by (induction xs arbitrary: s) (auto split: option.splits)

lemma puts_complete:
  assumes "in_hand s = Some (ev, i)" "i + k = length (dst_queues s)"
    "\<forall>q \<in> set (dst_queues s). maxsize q \<le> 0"
  shows "run (replicate k Put) s =
     Some (s\<lparr>dst_queues := take i (dst_queues s)
                 @ map (\<lambda>q. q\<lparr>items := items q @ [ev]\<rparr>) (drop i (dst_queues s)),
             in_hand := Some (ev, length (dst_queues s))\<rparr>)"
  using assms
proof (induction k arbitrary: s i)
  case 0
  then show ?case by simp
next
  case (Suc k)
  let ?qs = "dst_queues s"
  have i: "i < length ?qs" using Suc.prems(2) by simp
  have nf: "\<not> full (?qs ! i)"
    using Suc.prems(3) i by (simp add: full_def)
  let ?s1 = "s\<lparr>dst_queues := ?qs[i := (?qs ! i)\<lparr>items := items (?qs ! i) @ [ev]\<rparr>],
               in_hand := Some (ev, Suc i)\<rparr>"
  have st: "step Put s = Some ?s1"
    using Suc.prems(1) i nf by (simp add: put_def)
  have m: "\<forall>q \<in> set (dst_queues ?s1). maxsize q \<le> 0"
    using Suc.prems(3) i by (auto simp: set_conv_nth nth_list_update)
  have ih: "run (replicate k Put) ?s1 =
     Some (?s1\<lparr>dst_queues := take (Suc i) (dst_queues ?s1)
                 @ map (\<lambda>q. q\<lparr>items := items q @ [ev]\<rparr>) (drop (Suc i) (dst_queues ?s1)),
             in_hand := Some (ev, length (dst_queues ?s1))\<rparr>)"
    by (rule Suc.IH) (use Suc.prems(2) m in simp_all)
  have e: "take (Suc i) (?qs[i := (?qs ! i)\<lparr>items := items (?qs ! i) @ [ev]\<rparr>])
             @ map (\<lambda>q. q\<lparr>items := items q @ [ev]\<rparr>) (drop (Suc i) ?qs)
           = take i ?qs @ map (\<lambda>q. q\<lparr>items := items q @ [ev]\<rparr>) (drop i ?qs)"
    using i by (simp add: take_Suc_conv_app_nth Cons_nth_drop_Suc [symmetric])
  show ?case
    using st ih e by simp
qed

lemma broadcast_completes:
  assumes "in_hand s = None" "items (src_q s) = []" "maxsize (src_q s) \<le> 0"
    "\<forall>q \<in> set (dst_queues s). maxsize q \<le> 0"
  shows "run (Publish ev # Get # replicate (length (dst_queues s)) Put @ [Done]) s =
     Some (s\<lparr>dst_queues := map (\<lambda>q. q\<lparr>items := items q @ [ev]\<rparr>) (dst_queues s)\<rparr>)"
proof -
  let ?s2 = "s\<lparr>in_hand := Some (ev, 0)\<rparr>"
  have a: "run [Publish ev, Get] s = Some ?s2"
    using assms(1,2,3) by (simp add: put_def full_def)
  have b: "run (replicate (length (dst_queues ?s2)) Put) ?s2 =
     Some (?s2\<lparr>dst_queues := take 0 (dst_queues ?s2)
                 @ map (\<lambda>q. q\<lparr>items := items q @ [ev]\<rparr>) (drop 0 (dst_queues ?s2)),
             in_hand := Some (ev, length (dst_queues ?s2))\<rparr>)"
    by (rule puts_complete) (use assms(4) in simp_all)
  have "run (Publish ev # Get # replicate (length (dst_queues s)) Put @ [Done]) s
        = run ([Publish ev, Get] @ replicate (length (dst_queues s)) Put @ [Done]) s"
    by simp
  also have "\<dots> = Some (s\<lparr>dst_queues := map (\<lambda>q. q\<lparr>items := items q @ [ev]\<rparr>) (dst_queues s)\<rparr>)"
    unfolding run_append a using b assms(1) by (simp add: run_append)
  finally show ?thesis .
qed

section \<open>Properties of the batcher\<close>

lemma batcher_iter_nonempty: "[] \<notin> set (snd (batcher_iter B W st obs))"
  by (auto simp: batcher_iter_def Let_def)

lemma batcher_run_nonempty: "[] \<notin> set (snd (batcher_run B W st trace))"
proof (induction trace arbitrary: st)
  case Nil
  then show ?case by simp
next
  case (Cons obs trace)
  obtain st' out where i: "batcher_iter B W st obs = (st', out)"
    by (cases "batcher_iter B W st obs")
  obtain st'' outs where r: "batcher_run B W st' trace = (st'', outs)"
    by (cases "batcher_run B W st' trace")
  have "[] \<notin> set out"
    using batcher_iter_nonempty [of B W st obs] i by simp
  moreover have "[] \<notin> set outs"
    using Cons [of st'] r by simp
  ultimately show ?case
    using i r by simp
qed

lemma batcher_run_append:
  "batcher_run B W st (xs @ ys) =
     (case batcher_run B W st xs of
        (st', o1) \<Rightarrow> (case batcher_run B W st' ys of (st'', o2) \<Rightarrow> (st'', o1 @ o2)))"
  by (induction xs arbitrary: st) (auto split: prod.splits)

lemma batcher_run_Cons:
  "batcher_run B W st (obs # rest) =
     (fst (batcher_run B W (fst (batcher_iter B W st obs)) rest),
      snd (batcher_iter B W st obs) @ snd (batcher_run B W (fst (batcher_iter B W st obs)) rest))"
  by (simp split: prod.splits)




lemma prompt_count:
  assumes "1 \<le> B" "int (length (buf st)) < B" "prompt B W st trace"
  shows "length (snd (batcher_run B W st trace)) = (length (buf st) + length trace) div nat B
       \<and> length (buf (fst (batcher_run B W st trace))) = (length (buf st) + length trace) mod nat B
       \<and> (\<forall>b \<in> set (snd (batcher_run B W st trace)). int (length b) = B)"
  using assms
proof (induction trace arbitrary: st)
  case Nil
  then show ?case by simp
next
  case (Cons obs trace)
  obtain a now where obs: "obs = (a, now)" by (cases obs)
  from Cons.prems(3) obs obtain ev where a: "a = Got ev"
    by (cases a) auto
  from Cons.prems(3) obs a have quick: "now - last_flush st < W"
    and rest: "prompt B W (fst (batcher_iter B W st (Got ev, now))) trace"
    by auto
  let ?n = "length (buf st)"
  show ?case
  proof (cases "B \<le> int (Suc ?n)")
    case True
    with Cons.prems(2) have eq: "int (Suc ?n) = B" by linarith
    then have nB: "nat B = Suc ?n" by linarith
    have it: "batcher_iter B W st (Got ev, now) = (\<lparr>buf = [], last_flush = now\<rparr>, [buf st @ [ev]])"
      using True by (simp add: batcher_iter_def Let_def)
    have ih: "length (snd (batcher_run B W \<lparr>buf = [], last_flush = now\<rparr> trace)) = length trace div nat B
       \<and> length (buf (fst (batcher_run B W \<lparr>buf = [], last_flush = now\<rparr> trace))) = length trace mod nat B
       \<and> (\<forall>b \<in> set (snd (batcher_run B W \<lparr>buf = [], last_flush = now\<rparr> trace)). int (length b) = B)"
      using Cons.IH [of "\<lparr>buf = [], last_flush = now\<rparr>"] Cons.prems(1) rest it by simp
    have s: "?n + length (obs # trace) = nat B + length trace"
      using nB by simp
    have pos: "0 < nat B" using nB by simp
    have d: "(?n + length (obs # trace)) div nat B = Suc (length trace div nat B)"
      unfolding s using pos by simp
    have m: "(?n + length (obs # trace)) mod nat B = length trace mod nat B"
      unfolding s by simp
    show ?thesis
      using ih it obs a d m eq by (simp add: batcher_run_Cons del: batcher_run.simps)
  next
    case False
    then have lt: "int (Suc ?n) < B" by simp
    have it: "batcher_iter B W st (Got ev, now) = (st\<lparr>buf := buf st @ [ev]\<rparr>, [])"
      using False quick by (simp add: batcher_iter_def Let_def)
    have ih: "length (snd (batcher_run B W (st\<lparr>buf := buf st @ [ev]\<rparr>) trace)) = (Suc ?n + length trace) div nat B
       \<and> length (buf (fst (batcher_run B W (st\<lparr>buf := buf st @ [ev]\<rparr>) trace))) = (Suc ?n + length trace) mod nat B
       \<and> (\<forall>b \<in> set (snd (batcher_run B W (st\<lparr>buf := buf st @ [ev]\<rparr>) trace)). int (length b) = B)"
      using Cons.IH [of "st\<lparr>buf := buf st @ [ev]\<rparr>"] Cons.prems(1) rest it lt by simp
    show ?thesis
      using ih it obs a by (simp add: batcher_run_Cons del: batcher_run.simps)
  qed
qed

lemma ceiling_div_nat:
  assumes "1 \<le> B"
  shows "nat \<lceil>real n / real_of_int B\<rceil> = n div nat B + (if n mod nat B = 0 then 0 else 1)"
proof -
  have B: "int (nat B) = B" using assms by simp
  have "\<lceil>real n / real_of_int B\<rceil> = \<lceil>of_int (int n) / real_of_int B\<rceil>" by simp
  also have "\<dots> = - (- int n div B)" by (rule ceiling_divide_eq_div)
  also have "\<dots> = (if int n mod B = 0 then int n div B else int n div B + 1)"
    using assms by (simp add: zdiv_zminus1_eq_if)
  finally have c: "\<lceil>real n / real_of_int B\<rceil> = (if int n mod B = 0 then int n div B else int n div B + 1)" .
  have d: "int n div B = int (n div nat B)" using B by (metis zdiv_int)
  have m: "int n mod B = int (n mod nat B)" using B by (metis zmod_int)
  show ?thesis unfolding c d m by (simp add: nat_add_distrib)
qed



text \<open>
  Claim C4, as stated, fails: with \<open>B = 10\<close> and \<open>W = 2\<close>, four events read one
  time unit apart are emitted in two batches, not in \<open>\<lceil>4/10\<rceil> = 1\<close>, because the
  time trigger counts from the last flush and not from the previous event.
\<close>

theorem batcher_flushes_on_elapsed_time:
  "gaps_below 2 [1, 2, 3, 4]
   \<and> snd (batcher 10 2 0 [(Got (1::nat), 1), (Got 2, 2), (Got 3, 3), (Got 4, 4)]) = [[1, 2], [3, 4]]
   \<and> \<lceil>(4::real) / 10\<rceil> = 1"
  by (simp add: batcher_def batcher_iter_def Let_def)

text \<open>
  Claim C4, amended. No emitted batch is empty. When \<open>B \<ge> 1\<close> and each of the
  \<open>N\<close> events is read less than \<open>W\<close> after the last flush (after the start, before
  the first flush), the batcher emits \<open>N div B\<close> batches of \<open>B\<close> events while it
  reads them, and with the first later timeout at which \<open>W\<close> has passed since the last
  flush it has emitted \<open>\<lceil>N/B\<rceil>\<close> batches.
\<close>

theorem batcher_batches:
  "[] \<notin> set (snd (batcher_run B W st trace'))
   \<and> (1 \<le> B \<and> prompt B W \<lparr>buf = [], last_flush = t0\<rparr> trace
        \<and> W \<le> t' - last_flush (fst (batcher B W t0 trace))
      \<longrightarrow> length (snd (batcher B W t0 trace)) = length trace div nat B
          \<and> (\<forall>b \<in> set (snd (batcher B W t0 trace)). int (length b) = B)
          \<and> length (snd (batcher B W t0 (trace @ [(Timeout, t')])))
              = nat \<lceil>real (length trace) / real_of_int B\<rceil>)"
proof (intro conjI impI)
  show "[] \<notin> set (snd (batcher_run B W st trace'))"
    by (rule batcher_run_nonempty)
next
  assume h: "1 \<le> B \<and> prompt B W \<lparr>buf = [], last_flush = t0\<rparr> trace
        \<and> W \<le> t' - last_flush (fst (batcher B W t0 trace))"
  let ?st0 = "\<lparr>buf = [], last_flush = t0\<rparr> :: 'b batcher"
  obtain st1 outs where r: "batcher_run B W ?st0 trace = (st1, outs)"
    by (cases "batcher_run B W ?st0 trace")
  from h have c: "length outs = length trace div nat B
     \<and> length (buf st1) = length trace mod nat B \<and> (\<forall>b \<in> set outs. int (length b) = B)"
    using prompt_count [of B ?st0 W trace] r by simp
  show "length (snd (batcher B W t0 trace)) = length trace div nat B"
    using c r by (simp add: batcher_def)
  show "\<forall>b \<in> set (snd (batcher B W t0 trace)). int (length b) = B"
    using c r by (simp add: batcher_def)
  have "length trace mod nat B < nat B"
    using h by simp
  then have lt: "int (length (buf st1)) < B"
    using c by linarith
  have w: "W \<le> t' - last_flush st1"
    using h r by (simp add: batcher_def)
  have last: "length (snd (batcher_iter B W st1 (Timeout, t'))) = (if buf st1 = [] then 0 else 1)"
    using lt w by (simp add: batcher_iter_def Let_def)
  have "length (snd (batcher B W t0 (trace @ [(Timeout, t')])))
        = length outs + length (snd (batcher_iter B W st1 (Timeout, t')))"
    using r by (simp add: batcher_def batcher_run_append split: prod.splits)
  also have "\<dots> = length trace div nat B + (if length trace mod nat B = 0 then 0 else 1)"
  proof -
    have "(buf st1 = []) = (length trace mod nat B = 0)"
      using c by (metis length_0_conv)
    then show ?thesis using c last by simp
  qed
  also have "\<dots> = nat \<lceil>real (length trace) / real_of_int B\<rceil>"
    using h ceiling_div_nat [of B "length trace"] by simp
  finally show "length (snd (batcher B W t0 (trace @ [(Timeout, t')])))
              = nat \<lceil>real (length trace) / real_of_int B\<rceil>" .
qed

text \<open>
  Claim C4, amended, at \<open>B = 3\<close>, \<open>W = 10\<close> and four events.
\<close>

theorem batcher_batches_witness:
  "(1::int) \<le> 3
   \<and> prompt 3 10 \<lparr>buf = [], last_flush = 0\<rparr> [(Got (1::nat), 1), (Got 2, 2), (Got 3, 3), (Got 4, 4)]
   \<and> (10::real) \<le> 20 - last_flush (fst (batcher 3 10 0 [(Got (1::nat), 1), (Got 2, 2), (Got 3, 3), (Got 4, 4)]))
   \<and> snd (batcher 3 10 0 ([(Got (1::nat), 1), (Got 2, 2), (Got 3, 3), (Got 4, 4)] @ [(Timeout, 20)]))
       = [[1, 2, 3], [4]]
   \<and> length (snd (batcher 3 10 0 ([(Got (1::nat), 1), (Got 2, 2), (Got 3, 3), (Got 4, 4)] @ [(Timeout, 20)])))
       = nat \<lceil>real (length [(Got (1::nat), 1::real), (Got 2, 2), (Got 3, 3), (Got 4, 4)]) / real_of_int 3\<rceil>"
proof -
  have a: "(1::int) \<le> 3" by simp
  have b: "prompt 3 10 \<lparr>buf = [], last_flush = 0\<rparr> [(Got (1::nat), 1), (Got 2, 2), (Got 3, 3), (Got 4, 4)]"
    by (simp add: batcher_iter_def Let_def)
  have c: "(10::real) \<le> 20 - last_flush (fst (batcher 3 10 0 [(Got (1::nat), 1), (Got 2, 2), (Got 3, 3), (Got 4, 4)]))"
    by (simp add: batcher_def batcher_iter_def Let_def)
  have d: "snd (batcher 3 10 0 ([(Got (1::nat), 1), (Got 2, 2), (Got 3, 3), (Got 4, 4)] @ [(Timeout, 20)]))
       = [[1, 2, 3], [4]]"
    by (simp add: batcher_def batcher_iter_def Let_def)
  show ?thesis
    using a b c d
      batcher_batches [where B = 3 and W = 10 and ?t0.0 = 0 and t' = 20
        and trace = "[(Got (1::nat), 1), (Got 2, 2), (Got 3, 3), (Got 4, 4)]"]
    by simp
qed

section \<open>Properties of the storage ingestor\<close>

lemma metrics_both:
  "b \<noteq> 0 \<Longrightarrow> a \<noteq> 0 \<Longrightarrow> b + a \<noteq> 0 \<Longrightarrow>
   metrics (Some b) (Some a) = Inr (Some ((b + a) / 2), Some ((a - b) / ((b + a) / 2) * 10000))"
  by (simp add: metrics_def Let_def)

lemma metrics_one_sided:
  "bid = None \<or> ask = None \<Longrightarrow> metrics bid ask = Inr (None, None)"
  by (auto simp: metrics_def split: option.splits)

text \<open>
  Claim C1. Both sides present should give \<open>mid_price = (bestBid + bestAsk) / 2\<close>. The
  ingestor tests the truth value of the best prices instead of their presence: a Binance
  update that leaves the bid side with the single level at price \<open>0\<close> and the ask side
  with a level at \<open>101\<close> yields an event with both sides non-empty, and its row has
  \<open>best_bid = 0\<close>, \<open>best_ask = 101\<close> and null \<open>mid_price\<close> and
  \<open>spread_bps\<close>.
\<close>

theorem questdb_row_zero_bid:
  "(case snd (binance_on_message decimal_conv (\<lambda>i. 1) (streamer ''binance'' [(''BTC-USD'', ''btcusdt'')])
              ''BTC-USD'' ''btcusdt'' (init ''BTC-USD'')
              (JObj [(''stream'', JStr ''btcusdt@depth@100ms''),
                     (''data'', JObj [(''E'', JNum 1000), (''u'', JNum 7),
                                      (''b'', JArr [JArr [JStr ''0'', JStr ''1'']]),
                                      (''a'', JArr [JArr [JStr ''101'', JStr ''1'']])])])) of
      Inr (Some ev) \<Rightarrow>
        d_bids (ev_depth ev) = [(0, 1)] \<and> d_asks (ev_depth ev) = [(101, 1)]
        \<and> map_sum id (\<lambda>r. (best_bid r, best_ask r, mid_price r, spread_bps r))
            (questdb_row decimal_conv ev) = Inr (Some 0, Some 101, None, None)
    | _ \<Rightarrow> False)"
  by (simp add: binance_on_message_def upsert_side_def unpack2_def andthen_def decimal_simps
      decimal_def digit_def publish_def snapshot_def slice_to_def init_def streamer_def Let_def
      DAList.update.rep_eq DAList.empty.rep_eq questdb_row_def split_symbol_def str_upper_def
      upper_char_def str_endswith_def best_price_def metrics_def int_of_float_def)

lemma questdb_event_eq:
  "questdb_event cv cl st ev =
     st\<lparr>buffered := buffered st @ List.map_filter (accepted cv cl) [ev],
        printed := printed st @ List.map_filter (rejected cv cl) [ev]\<rparr>"
  by (simp add: questdb_event_def accepted_def rejected_def List.map_filter_simps
      split: sum.splits option.splits)

lemma map_filter_Cons_append:
  "List.map_filter f (x # xs) = List.map_filter f [x] @ List.map_filter f xs"
  by (simp add: List.map_filter_def)

lemma foldl_questdb_event:
  "foldl (questdb_event cv cl) st batch =
     st\<lparr>buffered := buffered st @ List.map_filter (accepted cv cl) batch,
        printed := printed st @ List.map_filter (rejected cv cl) batch\<rparr>"
proof (induction batch arbitrary: st)
  case Nil
  then show ?case by (simp add: List.map_filter_simps)
next
  case (Cons ev batch)
  have "foldl (questdb_event cv cl) st (ev # batch) =
        foldl (questdb_event cv cl) (questdb_event cv cl st ev) batch"
    by simp
  also have "\<dots> = (questdb_event cv cl st ev)
      \<lparr>buffered := buffered (questdb_event cv cl st ev) @ List.map_filter (accepted cv cl) batch,
       printed := printed (questdb_event cv cl st ev) @ List.map_filter (rejected cv cl) batch\<rparr>"
    by (rule Cons.IH)
  also have "\<dots> = st\<lparr>buffered := buffered st @ List.map_filter (accepted cv cl) (ev # batch),
        printed := printed st @ List.map_filter (rejected cv cl) (ev # batch)\<rparr>"
    by (simp add: questdb_event_eq split: option.splits)
  finally show ?case .
qed

text \<open>
  Claim C10. A batch is processed to its end whatever happens to single events: the rows
  submitted are those of the events whose row is built and accepted, in the order of the
  batch, every other event leaves one printed line, and the sender is flushed once, after
  the loop, with all the rows.
\<close>

theorem questdb_batch_skips_failures:
  "questdb_batch cv cl st batch =
     (case flush_error cl (buffered st @ List.map_filter (accepted cv cl) batch) of
        Some e \<Rightarrow> Inl e
      | None \<Rightarrow>
          Inr \<lparr>buffered = [],
               flushes = flushes st @ [buffered st @ List.map_filter (accepted cv cl) batch],
               printed = printed st @ List.map_filter (rejected cv cl) batch
                         @ [Flushed (length batch)]\<rparr>)"
  by (simp add: questdb_batch_def foldl_questdb_event Let_def split: option.splits)

end
